theory Spec2Isabelle
  imports Complex_Main "HOL-Library.Word"
begin

unbundle bit_operations_syntax

section \<open>Python values, errors and byte buffers\<close>

text \<open>
  A \<open>bytes\<close> object is a list of 8-bit words; indexing it yields a Python \<open>int\<close>
  (\<open>uint\<close> of the word).  A \<open>str\<close> is a list of Unicode code points.  A Python
  \<open>float\<close> is modelled by the rational number it denotes; every floating-point
  operation rounds its exact result with the rounding function \<open>fl\<close>, which the
  functions below take as a parameter.
\<close>

type_synonym bytes = "8 word list"
type_synonym pystr = "nat list"

datatype error =
  IndexError | StructError | UnicodeDecodeError | UnicodeEncodeError | TypeError | ValueError

datatype pyval = PInt int | PFloat rat | PBool bool | PStr pystr | PBytes bytes

type_synonym pydict = "string \<rightharpoonup> pyval"

definition ebind :: "error + 'a \<Rightarrow> ('a \<Rightarrow> error + 'b) \<Rightarrow> error + 'b" where
  "ebind m f = (case m of Inl e \<Rightarrow> Inl e | Inr x \<Rightarrow> f x)"

definition ustr :: "string \<Rightarrow> pystr" where
  "ustr s = map of_char s"

text \<open>\<open>==\<close> on the value kinds the decoder compares: numbers compare by value, byte
  strings with byte strings, text with text; values of different kinds are never equal.\<close>

fun py_num :: "pyval \<Rightarrow> rat option" where
  "py_num (PInt i) = Some (of_int i)"
| "py_num (PFloat x) = Some x"
| "py_num (PBool b) = Some (if b then 1 else 0)"
| "py_num (PStr s) = None"
| "py_num (PBytes b) = None"

fun py_eq :: "pyval \<Rightarrow> pyval \<Rightarrow> bool" where
  "py_eq (PStr a) (PStr b) = (a = b)"
| "py_eq (PBytes a) (PBytes b) = (a = b)"
| "py_eq a b = (case (py_num a, py_num b) of (Some x, Some y) \<Rightarrow> x = y | _ \<Rightarrow> False)"

definition py_ne :: "pyval \<Rightarrow> pyval \<Rightarrow> bool" where
  "py_ne a b = (\<not> py_eq a b)"

definition getitem :: "bytes \<Rightarrow> nat \<Rightarrow> error + int" where
  "getitem b i = (if i < length b then Inr (uint (b ! i)) else Inl IndexError)"

definition py_slice :: "'a list \<Rightarrow> nat \<Rightarrow> nat \<Rightarrow> 'a list" where
  "py_slice xs a b = drop a (take b xs)"

definition py_chr :: "int \<Rightarrow> error + nat" where
  "py_chr n = (if 0 \<le> n \<and> n < 0x110000 then Inr (nat n) else Inl ValueError)"

definition py_isspace :: "nat \<Rightarrow> bool" where
  "py_isspace c \<longleftrightarrow>
     (9 \<le> c \<and> c \<le> 13) \<or> (28 \<le> c \<and> c \<le> 32) \<or> c = 133 \<or> c = 160 \<or> c = 5760 \<or>
     (8192 \<le> c \<and> c \<le> 8202) \<or> c = 8232 \<or> c = 8233 \<or> c = 8239 \<or> c = 8287 \<or> c = 12288"

definition strip_chars :: "('a \<Rightarrow> bool) \<Rightarrow> 'a list \<Rightarrow> 'a list" where
  "strip_chars p s = rev (dropWhile p (rev (dropWhile p s)))"

definition py_strip :: "pystr \<Rightarrow> pystr" where
  "py_strip s = strip_chars py_isspace s"

section \<open>Field layout\<close>

definition HEADER :: "nat \<times> nat" where "HEADER = (0, 8)"
definition MANUFACTURER_ID :: "nat \<times> nat" where "MANUFACTURER_ID = (8, 10)"
definition PRODUCT_ID :: "nat \<times> nat" where "PRODUCT_ID = (10, 12)"
definition SERIAL_32 :: "nat \<times> nat" where "SERIAL_32 = (12, 16)"
definition WEEK_OF_MANUFACTURE :: nat where "WEEK_OF_MANUFACTURE = 16"
definition YEAR_OF_MANUFACTURE :: nat where "YEAR_OF_MANUFACTURE = 17"
definition EDID_VERSION :: nat where "EDID_VERSION = 18"
definition EDID_REVISION :: nat where "EDID_REVISION = 19"
definition MAX_H_SIZE_CM :: nat where "MAX_H_SIZE_CM = 21"
definition MAX_V_SIZE_CM :: nat where "MAX_V_SIZE_CM = 22"
definition GAMMA :: nat where "GAMMA = 23"
definition FEATURES :: nat where "FEATURES = 24"
definition LO_RG_XY :: nat where "LO_RG_XY = 25"
definition LO_BW_XY :: nat where "LO_BW_XY = 26"
definition HI_R_X :: nat where "HI_R_X = 27"
definition HI_R_Y :: nat where "HI_R_Y = 28"
definition HI_G_X :: nat where "HI_G_X = 29"
definition HI_G_Y :: nat where "HI_G_Y = 30"
definition HI_B_X :: nat where "HI_B_X = 31"
definition HI_B_Y :: nat where "HI_B_Y = 32"
definition HI_W_X :: nat where "HI_W_X = 33"
definition HI_W_Y :: nat where "HI_W_Y = 34"
definition BLOCKS :: "(nat \<times> nat) list" where
  "BLOCKS = [(54, 72), (72, 90), (90, 108), (108, 126)]"
definition BLOCK_TYPE :: nat where "BLOCK_TYPE = 3"
definition BLOCK_CONTENTS :: "nat \<times> nat" where "BLOCK_CONTENTS = (5, 18)"
definition BLOCK_TYPE_SERIAL_ASCII :: bytes where "BLOCK_TYPE_SERIAL_ASCII = [0xFF]"
definition BLOCK_TYPE_ASCII :: bytes where "BLOCK_TYPE_ASCII = [0xFE]"
definition BLOCK_TYPE_MONITOR_NAME :: bytes where "BLOCK_TYPE_MONITOR_NAME = [0xFC]"
definition BLOCK_TYPE_COLOR_POINT :: bytes where "BLOCK_TYPE_COLOR_POINT = [0xFB]"
definition BLOCK_TYPE_COLOR_MANAGEMENT_DATA :: bytes where
  "BLOCK_TYPE_COLOR_MANAGEMENT_DATA = [0xF9]"
definition EXTENSION_FLAG :: nat where "EXTENSION_FLAG = 126"
definition CHECKSUM :: nat where "CHECKSUM = 127"
definition BLOCK_DI_EXT :: bytes where "BLOCK_DI_EXT = [0x40]"
definition TRC :: "nat \<times> nat" where "TRC = (81, 127)"

section \<open>Manufacturer id\<close>

definition combine_hi_8lo :: "int \<Rightarrow> int \<Rightarrow> int" where
  "combine_hi_8lo hi lo = push_bit 8 hi OR lo"

text \<open>The loop \<open>for shift in (10, 5, 0)\<close> of \<open>parse_manufacturer_id\<close>, appending one
  character per shift.\<close>

fun manufacturer_chars :: "int \<Rightarrow> nat list \<Rightarrow> error + pystr" where
  "manufacturer_chars h [] = Inr []"
| "manufacturer_chars h (shift # rest) =
     ebind (py_chr ((drop_bit shift h AND 0x1F) + int (of_char CHR ''A'') - 1)) (\<lambda>c.
     ebind (manufacturer_chars h rest) (\<lambda>cs. Inr (c # cs)))"

definition parse_manufacturer_id :: "bytes \<Rightarrow> error + pystr" where
  "parse_manufacturer_id block =
     ebind (getitem block 0) (\<lambda>b0.
     ebind (getitem block 1) (\<lambda>b1.
     ebind (manufacturer_chars (combine_hi_8lo b0 b1) [10, 5, 0]) (\<lambda>manufacturer_id.
     Inr (py_strip manufacturer_id))))"

section \<open>Fraction codec\<close>

definition edid_get_bit :: "int \<Rightarrow> nat \<Rightarrow> int" where
  "edid_get_bit v b = drop_bit b (v AND push_bit b 1)"

text \<open>\<open>edid_get_bits\<close>: a negative shift count \<open>end - begin + 1\<close> raises ValueError.\<close>

definition edid_get_bits :: "int \<Rightarrow> nat \<Rightarrow> nat \<Rightarrow> error + int" where
  "edid_get_bits v begin end =
     (if int end - int begin + 1 < 0 then Inl ValueError
      else Inr (drop_bit begin v AND (push_bit (Suc end - begin) 1 - 1)))"

text \<open>\<open>math.pow(2, e)\<close> for an integer \<open>e\<close>: the power of two, rounded to a float.\<close>

definition math_pow2 :: "(rat \<Rightarrow> rat) \<Rightarrow> int \<Rightarrow> rat" where
  "math_pow2 fl e = fl (2 powi e)"

definition edid_decode_fraction :: "(rat \<Rightarrow> rat) \<Rightarrow> int \<Rightarrow> int \<Rightarrow> rat" where
  "edid_decode_fraction fl high low =
     (let high = push_bit 2 high OR low
      in fold (\<lambda>i result. fl (result + fl (of_int (edid_get_bit high i) * math_pow2 fl (int i - 10))))
              [0..<10] 0)"

section \<open>String sanitizer\<close>

definition bytes_replace :: "8 word \<Rightarrow> 8 word \<Rightarrow> bytes \<Rightarrow> bytes" where
  "bytes_replace old new b = map (\<lambda>x. if x = old then new else x) b"

text \<open>\<open>bytes.find\<close> of a single byte: the first index, or \<open>-1\<close>.\<close>

definition bytes_find :: "8 word \<Rightarrow> bytes \<Rightarrow> int" where
  "bytes_find x b = (if x \<in> set b then int (length (takeWhile (\<lambda>y. y \<noteq> x) b)) else - 1)"

text \<open>\<open>bytes.rstrip()\<close> strips the ASCII whitespace bytes 9..13 and 32.\<close>

definition bytes_isspace :: "8 word \<Rightarrow> bool" where
  "bytes_isspace x \<longleftrightarrow> x = 0x20 \<or> (0x09 \<le> x \<and> x \<le> 0x0D)"

definition bytes_rstrip :: "bytes \<Rightarrow> bytes" where
  "bytes_rstrip b = rev (dropWhile bytes_isspace (rev b))"

definition non_printable :: "8 word \<Rightarrow> bool" where
  "non_printable x \<longleftrightarrow> x < 32 \<or> x > 126"

text \<open>The first half of \<open>edid_parse_string\<close>: truncation to 13 bytes, newline and
  carriage return turned into NUL, cut at the first NUL, trailing whitespace stripped.\<close>

definition edid_string_text :: "bytes \<Rightarrow> bytes" where
  "edid_string_text desc =
     (let desc = bytes_replace 0x0D 0x00 (bytes_replace 0x0A 0x00 (take 13 desc));
          null_index = bytes_find 0x00 desc;
          desc = (if null_index \<noteq> - 1 then take (nat null_index) desc else desc)
      in bytes_rstrip desc)"

text \<open>The replacement loop \<open>for i in range(len(desc))\<close> over the pair of the byte
  array and \<open>non_printable_count\<close>.\<close>

definition replace_step :: "nat \<Rightarrow> bytes \<times> nat \<Rightarrow> bytes \<times> nat" where
  "replace_step i st =
     (case st of (desc, non_printable_count) \<Rightarrow>
        if desc ! i < 32 \<or> desc ! i > 126 then (desc[i := 0], non_printable_count + 1)
        else (desc, non_printable_count))"

definition edid_parse_string :: "bytes \<Rightarrow> bytes option" where
  "edid_parse_string desc =
     (let desc = edid_string_text desc;
          (desc, non_printable_count) = fold replace_step [0..<length desc] (desc, 0)
      in if non_printable_count \<le> 4 then Some (bytes_replace 0x00 0x2D desc) else None)"

section \<open>Encoding normalizer\<close>

datatype pyedid = EBytes bytes | EStr pystr

fun py_len :: "pyedid \<Rightarrow> nat" where
  "py_len (EBytes b) = length b"
| "py_len (EStr s) = length s"

definition is_cont :: "8 word \<Rightarrow> bool" where
  "is_cont b \<longleftrightarrow> 0x80 \<le> b \<and> b \<le> 0xBF"

text \<open>Strict UTF-8 decoding (\<open>bytes.decode("utf-8")\<close>): shortest forms only, no
  surrogates, nothing above U+10FFFF; any other byte sequence raises.\<close>

fun utf8_decode :: "bytes \<Rightarrow> error + pystr" where
  "utf8_decode [] = Inr []"
| "utf8_decode (b0 # rest) =
     (if b0 < 0x80 then ebind (utf8_decode rest) (\<lambda>cs. Inr (unat b0 # cs))
      else if 0xC2 \<le> b0 \<and> b0 \<le> 0xDF then
        (case rest of
           b1 # r \<Rightarrow>
             if is_cont b1
             then ebind (utf8_decode r) (\<lambda>cs.
                    Inr (((unat b0 - 0xC0) * 64 + (unat b1 - 0x80)) # cs))
             else Inl UnicodeDecodeError
         | _ \<Rightarrow> Inl UnicodeDecodeError)
      else if 0xE0 \<le> b0 \<and> b0 \<le> 0xEF then
        (case rest of
           b1 # b2 # r \<Rightarrow>
             if (if b0 = 0xE0 then 0xA0 else 0x80) \<le> b1 \<and>
                b1 \<le> (if b0 = 0xED then 0x9F else 0xBF) \<and> is_cont b2
             then ebind (utf8_decode r) (\<lambda>cs.
                    Inr (((unat b0 - 0xE0) * 4096 + (unat b1 - 0x80) * 64 + (unat b2 - 0x80)) # cs))
             else Inl UnicodeDecodeError
         | _ \<Rightarrow> Inl UnicodeDecodeError)
      else if 0xF0 \<le> b0 \<and> b0 \<le> 0xF4 then
        (case rest of
           b1 # b2 # b3 # r \<Rightarrow>
             if (if b0 = 0xF0 then 0x90 else 0x80) \<le> b1 \<and>
                b1 \<le> (if b0 = 0xF4 then 0x8F else 0xBF) \<and> is_cont b2 \<and> is_cont b3
             then ebind (utf8_decode r) (\<lambda>cs.
                    Inr (((unat b0 - 0xF0) * 262144 + (unat b1 - 0x80) * 4096
                          + (unat b2 - 0x80) * 64 + (unat b3 - 0x80)) # cs))
             else Inl UnicodeDecodeError
         | _ \<Rightarrow> Inl UnicodeDecodeError)
      else Inl UnicodeDecodeError)"

definition latin1_encode :: "pystr \<Rightarrow> error + bytes" where
  "latin1_encode s = (if list_all (\<lambda>c. c < 256) s then Inr (map of_nat s) else Inl UnicodeEncodeError)"

text \<open>\<open>b"\xc2" in edid\<close> raises TypeError when \<open>edid\<close> is a \<open>str\<close>.\<close>

fun fix_edid_encoding :: "pyedid \<Rightarrow> error + pyedid" where
  "fix_edid_encoding (EStr s) = Inl TypeError"
| "fix_edid_encoding (EBytes edid) =
     (if 0xC2 \<in> set edid \<or> 0xC3 \<in> set edid
      then ebind (utf8_decode edid) (\<lambda>s. ebind (latin1_encode s) (\<lambda>b. Inr (EBytes b)))
      else Inr (EBytes edid))"

fun ensure_bytes :: "pyedid \<Rightarrow> error + bytes" where
  "ensure_bytes (EStr s) = latin1_encode s"
| "ensure_bytes (EBytes edid) = Inr edid"

section \<open>Manufacturer database\<close>

text \<open>The module-level dictionary \<open>pnpidcache\<close>, in insertion order.  A key is only
  ever inserted when it is absent, so every key occurs once.\<close>

type_synonym pnpidcache = "(pystr \<times> pystr) list"

definition py_truthy :: "pystr option \<Rightarrow> bool" where
  "py_truthy x = (case x of None \<Rightarrow> False | Some s \<Rightarrow> s \<noteq> [])"

definition startswith :: "'a list \<Rightarrow> 'a list \<Rightarrow> bool" where
  "startswith s p \<longleftrightarrow> take (length p) s = p"

definition endswith :: "'a list \<Rightarrow> 'a list \<Rightarrow> bool" where
  "endswith s p \<longleftrightarrow> length p \<le> length s \<and> drop (length s - length p) s = p"

text \<open>\<open>s.split(sep)\<close> for a one-character separator.\<close>

fun py_split :: "'a \<Rightarrow> 'a list \<Rightarrow> 'a list list" where
  "py_split sep [] = [[]]"
| "py_split sep (c # cs) =
     (if c = sep then [] # py_split sep cs
      else (case py_split sep cs of [] \<Rightarrow> [[c]] | p # ps \<Rightarrow> (c # p) # ps))"

text \<open>\<open>s.split(sep, 1)\<close> for a one-character separator.\<close>

definition py_split1 :: "'a \<Rightarrow> 'a list \<Rightarrow> 'a list list" where
  "py_split1 sep s =
     (if sep \<in> set s then [takeWhile (\<lambda>c. c \<noteq> sep) s, tl (dropWhile (\<lambda>c. c \<noteq> sep) s)]
      else [s])"

text \<open>\<open>s.split(None, 1)\<close>: the first whitespace-delimited word and, if anything but
  whitespace follows it, the remainder from its first non-whitespace character on.\<close>

definition py_split_ws1 :: "pystr \<Rightarrow> pystr list" where
  "py_split_ws1 s =
     (let s = dropWhile py_isspace s
      in if s = [] then []
         else let word = takeWhile (\<lambda>c. \<not> py_isspace c) s;
                  rest = dropWhile py_isspace (dropWhile (\<lambda>c. \<not> py_isspace c) s)
              in if rest = [] then [word] else [word, rest])"

definition list_item :: "'a list \<Rightarrow> nat \<Rightarrow> error + 'a" where
  "list_item xs i = (if i < length xs then Inr (xs ! i) else Inl IndexError)"

definition parse_hwdb_line :: "pystr \<Rightarrow> error + (pystr option \<times> pystr option)" where
  "parse_hwdb_line line =
     (if startswith (py_strip line) (ustr ''acpi:'')
      then ebind (list_item (py_split (of_char CHR '':'') line) 1) (\<lambda>part.
             Inr (Some (take 3 part), None))
      else if startswith (py_strip line) (ustr ''ID_VENDOR_FROM_DATABASE'')
      then ebind (list_item (py_split1 (of_char CHR ''='') line) 1) (\<lambda>part.
             Inr (None, Some (py_strip part)))
      else Inr (None, None))"

text \<open>The characters of \<open>string.whitespace\<close> followed by the no-break space U+00A0.\<close>

definition pnpid_strip_chars :: "nat list" where
  "pnpid_strip_chars = [32, 9, 10, 13, 11, 12, 160]"

text \<open>Unpacking \<open>id, name = ...\<close> raises ValueError unless the list has two elements;
  the handler turns that into \<open>(None, None)\<close>.\<close>

definition parse_pnpid_line :: "pystr \<Rightarrow> pystr option \<times> pystr option" where
  "parse_pnpid_line line =
     (case py_split_ws1 (strip_chars (\<lambda>c. c \<in> set pnpid_strip_chars) line) of
        [ident, name] \<Rightarrow> (Some ident, Some name)
      | _ \<Rightarrow> (None, None))"

text \<open>The dispatch on the file name in the body of the loop of \<open>parse_pnpid_file\<close>.\<close>

definition parse_line :: "string \<Rightarrow> pystr \<Rightarrow> error + (pystr option \<times> pystr option)" where
  "parse_line path line =
     (if endswith path ''hwdb'' then parse_hwdb_line line else Inr (parse_pnpid_line line))"

fun parse_pnpid_file :: "pystr list \<Rightarrow> string \<Rightarrow> pnpidcache \<Rightarrow> error + pnpidcache" where
  "parse_pnpid_file [] path cache = Inr cache"
| "parse_pnpid_file (line # pnp_ids) path cache =
     ebind (parse_line path line) (\<lambda>(ident, name).
       parse_pnpid_file pnp_ids path
         (case (ident, name) of
            (Some i, Some n) \<Rightarrow>
              if py_truthy ident \<and> py_truthy name \<and> map_of cache i = None
              then cache @ [(i, n)] else cache
          | _ \<Rightarrow> cache))"

text \<open>
  The world outside the decoder: \<open>sys.platform\<close>, the path
  \<open>os.path.join(constants.pydir, "pnp.ids")\<close> (the module \<open>constants\<close> is not part of
  the sources at hand), what each path holds on disk, and the MD5 digest function.
\<close>

datatype file_state = Missing | Unreadable | Readable "pystr list"

record environment =
  sys_platform :: string
  pydir_pnp_ids :: string
  file_at :: "string \<Rightarrow> file_state"
  md5_hexdigest :: "bytes \<Rightarrow> pystr"

definition get_pnpid_paths :: "environment \<Rightarrow> string list" where
  "get_pnpid_paths env =
     [''/usr/lib/udev/hwdb.d/20-acpi-vendor.hwdb'',
      ''/usr/share/hwdata/pnp.ids'',
      ''/usr/share/misc/pnp.ids'',
      ''/usr/share/libgnome-desktop/pnp.ids'']
     @ (if sys_platform env \<in> set [''darwin'', ''win32''] then [pydir_pnp_ids env] else [])"

text \<open>The loop of \<open>load_pnpidcache\<close>: a path that is no file is skipped, a file that
  cannot be opened (IOError) is skipped, the first file that opens is parsed and ends the
  loop.  Any other exception of the parse escapes.\<close>

fun load_paths :: "environment \<Rightarrow> string list \<Rightarrow> pnpidcache \<Rightarrow> error + pnpidcache" where
  "load_paths env [] cache = Inr cache"
| "load_paths env (path # paths) cache =
     (case file_at env path of
        Missing \<Rightarrow> load_paths env paths cache
      | Unreadable \<Rightarrow> load_paths env paths cache
      | Readable pnp_ids \<Rightarrow> parse_pnpid_file pnp_ids path cache)"

definition load_pnpidcache :: "environment \<Rightarrow> pnpidcache \<Rightarrow> error + pnpidcache" where
  "load_pnpidcache env cache = load_paths env (get_pnpid_paths env) cache"

definition get_manufacturer_name ::
    "environment \<Rightarrow> pnpidcache \<Rightarrow> pystr \<Rightarrow> error + (pystr option \<times> pnpidcache)" where
  "get_manufacturer_name env cache manufacturer_id =
     ebind (if cache = [] then load_pnpidcache env cache else Inr cache) (\<lambda>cache.
     Inr (map_of cache manufacturer_id, cache))"

section \<open>Block parsers\<close>

definition parse_edid_header ::
    "environment \<Rightarrow> pnpidcache \<Rightarrow> bytes \<Rightarrow> error + (pydict \<times> pnpidcache)" where
  "parse_edid_header env cache edid =
     ebind (parse_manufacturer_id (py_slice edid (fst MANUFACTURER_ID) (snd MANUFACTURER_ID)))
       (\<lambda>manufacturer_id.
     let result = [''edid'' \<mapsto> PBytes edid,
                   ''hash'' \<mapsto> PStr (md5_hexdigest env edid),
                   ''header'' \<mapsto> PBytes (py_slice edid (fst HEADER) (snd HEADER)),
                   ''manufacturer_id'' \<mapsto> PStr manufacturer_id]
     in ebind (get_manufacturer_name env cache manufacturer_id) (\<lambda>(manufacturer, cache).
        Inr (case manufacturer of
               Some m \<Rightarrow> if m \<noteq> [] then result(''manufacturer'' \<mapsto> PStr m) else result
             | None \<Rightarrow> result,
             cache)))"

text \<open>\<open>struct.unpack\<close> of one little-endian unsigned integer of \<open>n\<close> bytes: a buffer
  of any other length raises \<open>struct.error\<close>.\<close>

definition struct_unpack_le :: "nat \<Rightarrow> bytes \<Rightarrow> error + int" where
  "struct_unpack_le n b =
     (if length b = n then Inr (foldr (\<lambda>x acc. uint x + 256 * acc) b 0) else Inl StructError)"

definition parse_edid_basic_display_parameters :: "(rat \<Rightarrow> rat) \<Rightarrow> bytes \<Rightarrow> error + pydict" where
  "parse_edid_basic_display_parameters fl edid =
     ebind (struct_unpack_le 2 (py_slice edid (fst PRODUCT_ID) (snd PRODUCT_ID))) (\<lambda>product_id.
     ebind (struct_unpack_le 4 (py_slice edid (fst SERIAL_32) (snd SERIAL_32))) (\<lambda>serial_32.
     ebind (getitem edid WEEK_OF_MANUFACTURE) (\<lambda>week_of_manufacture.
     ebind (getitem edid YEAR_OF_MANUFACTURE) (\<lambda>year.
     ebind (getitem edid EDID_VERSION) (\<lambda>edid_version.
     ebind (getitem edid EDID_REVISION) (\<lambda>edid_revision.
     ebind (getitem edid MAX_H_SIZE_CM) (\<lambda>max_h_size_cm.
     ebind (getitem edid MAX_V_SIZE_CM) (\<lambda>max_v_size_cm.
     let result = [''product_id'' \<mapsto> PInt product_id,
                   ''serial_32'' \<mapsto> PInt serial_32,
                   ''week_of_manufacture'' \<mapsto> PInt week_of_manufacture,
                   ''year_of_manufacture'' \<mapsto> PInt (year + 1990),
                   ''edid_version'' \<mapsto> PInt edid_version,
                   ''edid_revision'' \<mapsto> PInt edid_revision,
                   ''max_h_size_cm'' \<mapsto> PInt max_h_size_cm,
                   ''max_v_size_cm'' \<mapsto> PInt max_v_size_cm]
     in ebind (getitem edid GAMMA) (\<lambda>gamma.
        let result = (if py_ne (PInt gamma) (PBytes [0xFF])
                      then result(''gamma'' \<mapsto> PFloat (fl (fl (of_int gamma / 100) + 1)))
                      else result)
        in ebind (getitem edid FEATURES) (\<lambda>features.
           Inr (result(''features'' \<mapsto> PInt features))))))))))))"

text \<open>One entry of the chromaticity dictionary:
  \<open>edid_decode_fraction(edid[hi], edid_get_bits(edid[lo], begin, end))\<close>.\<close>

definition chromaticity_entry ::
    "(rat \<Rightarrow> rat) \<Rightarrow> bytes \<Rightarrow> nat \<Rightarrow> nat \<Rightarrow> nat \<Rightarrow> nat \<Rightarrow> error + pyval" where
  "chromaticity_entry fl edid hi lo begin end =
     ebind (getitem edid hi) (\<lambda>high.
     ebind (getitem edid lo) (\<lambda>packed.
     ebind (edid_get_bits packed begin end) (\<lambda>low.
     Inr (PFloat (edid_decode_fraction fl high low)))))"

definition parse_edid_chromaticity_coordinates :: "(rat \<Rightarrow> rat) \<Rightarrow> bytes \<Rightarrow> error + pydict" where
  "parse_edid_chromaticity_coordinates fl edid =
     ebind (chromaticity_entry fl edid HI_R_X LO_RG_XY 6 7) (\<lambda>red_x.
     ebind (chromaticity_entry fl edid HI_R_Y LO_RG_XY 4 5) (\<lambda>red_y.
     ebind (chromaticity_entry fl edid HI_G_X LO_RG_XY 2 3) (\<lambda>green_x.
     ebind (chromaticity_entry fl edid HI_G_Y LO_RG_XY 0 1) (\<lambda>green_y.
     ebind (chromaticity_entry fl edid HI_B_X LO_BW_XY 6 7) (\<lambda>blue_x.
     ebind (chromaticity_entry fl edid HI_B_Y LO_BW_XY 4 5) (\<lambda>blue_y.
     ebind (chromaticity_entry fl edid HI_W_X LO_BW_XY 2 3) (\<lambda>white_x.
     ebind (chromaticity_entry fl edid HI_W_Y LO_BW_XY 0 1) (\<lambda>white_y.
     Inr [''red_x'' \<mapsto> red_x, ''red_y'' \<mapsto> red_y,
          ''green_x'' \<mapsto> green_x, ''green_y'' \<mapsto> green_y,
          ''blue_x'' \<mapsto> blue_x, ''blue_y'' \<mapsto> blue_y,
          ''white_x'' \<mapsto> white_x, ''white_y'' \<mapsto> white_y]))))))))"

text \<open>\<open>str\<close> of an integer: its decimal digits.\<close>

fun str_nat :: "nat \<Rightarrow> string" where
  "str_nat n =
     (if n < 10 then [char_of (48 + n)] else str_nat (n div 10) @ [char_of (48 + n mod 10)])"

declare str_nat.simps [simp del]

definition py_str :: "int \<Rightarrow> string" where
  "py_str i = (if i < 0 then CHR ''-'' # str_nat (nat (- i)) else str_nat (nat i))"

definition set_default :: "string \<Rightarrow> pyval \<Rightarrow> pydict \<Rightarrow> pydict" where
  "set_default k v result = (if result k = None then result(k \<mapsto> v) else result)"

text \<open>The loop \<open>for i in (5, 10)\<close> of \<open>parse_color_point_data\<close>.  The byte
  \<open>block[i + 4]\<close> is compared with the one-character text \<open>"\xff"\<close>.\<close>

fun color_point_loop :: "(rat \<Rightarrow> rat) \<Rightarrow> bytes \<Rightarrow> nat list \<Rightarrow> pydict \<Rightarrow> error + pydict" where
  "color_point_loop fl block [] result = Inr result"
| "color_point_loop fl block (i # rest) result =
     ebind (getitem block i) (\<lambda>index.
     if of_int index > fl (of_nat i / 5) then
       ebind (getitem block (i + 2)) (\<lambda>hi_x.
       ebind (getitem block (i + 1)) (\<lambda>lo.
       ebind (edid_get_bits lo 2 3) (\<lambda>lo_x.
       let white_x = edid_decode_fraction fl hi_x lo_x;
           result = result(''white_x_'' @ py_str index \<mapsto> PFloat white_x);
           result = set_default ''white_x'' (PFloat white_x) result
       in ebind (getitem block (i + 3)) (\<lambda>hi_y.
          ebind (edid_get_bits lo 0 1) (\<lambda>lo_y.
          let white_y = edid_decode_fraction fl hi_y lo_y;
              result = result(''white_y_'' @ py_str index \<mapsto> PFloat white_y);
              result = set_default ''white_y'' (PFloat white_y) result
          in ebind (getitem block (i + 4)) (\<lambda>g.
             if py_ne (PInt g) (PStr [0xFF]) then
               let gamma = fl (fl (of_int g / 100) + 1);
                   result = result(''gamma_'' @ py_str index \<mapsto> PFloat gamma);
                   result = set_default ''gamma'' (PFloat gamma) result
               in color_point_loop fl block rest result
             else color_point_loop fl block rest result))))))
     else color_point_loop fl block rest result)"

definition parse_color_point_data :: "(rat \<Rightarrow> rat) \<Rightarrow> bytes \<Rightarrow> error + pydict" where
  "parse_color_point_data fl block = color_point_loop fl block [5, 10] Map.empty"

definition text_types :: "bytes \<rightharpoonup> string" where
  "text_types = [BLOCK_TYPE_SERIAL_ASCII \<mapsto> ''serial_ascii'',
                 BLOCK_TYPE_ASCII \<mapsto> ''ascii'',
                 BLOCK_TYPE_MONITOR_NAME \<mapsto> ''monitor_name'']"

text \<open>The loop \<open>for start, stop in BLOCKS\<close> of \<open>parse_edid_descriptor_blocks\<close>.  The
  text variants are looked up with the one-byte slice \<open>block[3:4]\<close>; the two colour
  variants compare the integer \<open>block[3]\<close> with a byte string.\<close>

fun descriptor_loop ::
    "(rat \<Rightarrow> rat) \<Rightarrow> bytes \<Rightarrow> (nat \<times> nat) list \<Rightarrow> pydict \<Rightarrow> error + pydict" where
  "descriptor_loop fl edid [] result = Inr result"
| "descriptor_loop fl edid ((start, stop) # rest) result =
     (let block = py_slice edid start stop in
      if py_ne (PBytes (py_slice block 0 BLOCK_TYPE)) (PBytes [0x00, 0x00, 0x00])
      then descriptor_loop fl edid rest result
      else
        let text_type = text_types (py_slice block BLOCK_TYPE (BLOCK_TYPE + 1)) in
        if (case text_type of None \<Rightarrow> False | Some t \<Rightarrow> t \<noteq> [])
        then (case (text_type,
                    edid_parse_string (py_slice block (fst BLOCK_CONTENTS) (snd BLOCK_CONTENTS))) of
                (Some t, Some desc) \<Rightarrow>
                  ebind (utf8_decode desc) (\<lambda>s.
                  descriptor_loop fl edid rest (result(t \<mapsto> PStr s)))
              | _ \<Rightarrow> descriptor_loop fl edid rest result)
        else
          ebind (getitem block BLOCK_TYPE) (\<lambda>tag.
          if py_eq (PInt tag) (PBytes BLOCK_TYPE_COLOR_POINT)
          then ebind (parse_color_point_data fl block) (\<lambda>d.
               descriptor_loop fl edid rest (result ++ d))
          else if py_eq (PInt tag) (PBytes BLOCK_TYPE_COLOR_MANAGEMENT_DATA)
          then descriptor_loop fl edid rest
                 (result(''color_management_data'' \<mapsto>
                    PBytes (py_slice block (fst BLOCK_CONTENTS) (snd BLOCK_CONTENTS))))
          else descriptor_loop fl edid rest result))"

definition parse_edid_descriptor_blocks :: "(rat \<Rightarrow> rat) \<Rightarrow> bytes \<Rightarrow> error + pydict" where
  "parse_edid_descriptor_blocks fl edid = descriptor_loop fl edid BLOCKS Map.empty"

text \<open>The body of the loop \<open>while block\<close> over the extension pages, before
  \<open>block = block[128:]\<close>: it stores nothing.\<close>

definition extension_page :: "bytes \<Rightarrow> error + unit" where
  "extension_page block =
     ebind (getitem block 0) (\<lambda>tag.
     if py_eq (PInt tag) (PBytes BLOCK_DI_EXT)
     then ebind (getitem block (fst TRC)) (\<lambda>trc.
          if py_ne (PInt trc) (PStr [0]) then Inr () else Inr ())
     else Inr ())"

function extension_loop :: "bytes \<Rightarrow> error + unit" where
  "extension_loop block =
     (if block \<noteq> []
      then (case extension_page block of
              Inl e \<Rightarrow> Inl e
            | Inr u \<Rightarrow> extension_loop (drop 128 block))
      else Inr ())"
  by pat_completeness auto
termination
  by (relation "measure length") auto

declare extension_loop.simps [simp del]

definition parse_edid_extension_blocks :: "bytes \<Rightarrow> error + pydict" where
  "parse_edid_extension_blocks edid =
     ebind (getitem edid EXTENSION_FLAG) (\<lambda>ext_flag.
     ebind (getitem edid CHECKSUM) (\<lambda>checksum.
     let result = [''ext_flag'' \<mapsto> PInt ext_flag,
                   ''checksum'' \<mapsto> PInt checksum,
                   ''checksum_valid'' \<mapsto> PBool (sum_list (map uint edid) mod 256 = 0)]
     in if length edid > 128 \<and> ext_flag > 0
        then ebind (extension_loop (drop 128 edid)) (\<lambda>u. Inr result)
        else Inr result))"

section \<open>The decoder\<close>

text \<open>The first two statements of \<open>parse_edid\<close>: the encoding repair, attempted
  when the length is none of 128, 256, 384, and the conversion to bytes.\<close>

definition normalize_edid :: "pyedid \<Rightarrow> error + bytes" where
  "normalize_edid edid =
     ebind (if py_len edid \<notin> set [128, 256, 384] then fix_edid_encoding edid else Inr edid)
       (\<lambda>edid. ensure_bytes edid)"

definition parse_edid ::
    "(rat \<Rightarrow> rat) \<Rightarrow> environment \<Rightarrow> pnpidcache \<Rightarrow> pyedid \<Rightarrow> error + (pydict \<times> pnpidcache)" where
  "parse_edid fl env cache edid =
     ebind (normalize_edid edid) (\<lambda>edid.
     ebind (parse_edid_header env cache edid) (\<lambda>(result, cache).
     ebind (parse_edid_basic_display_parameters fl edid) (\<lambda>basic.
     ebind (parse_edid_chromaticity_coordinates fl edid) (\<lambda>chromaticity.
     ebind (parse_edid_descriptor_blocks fl edid) (\<lambda>descriptors.
     ebind (parse_edid_extension_blocks edid) (\<lambda>extension.
     Inr (result ++ basic ++ chromaticity ++ descriptors ++ extension, cache)))))))"

section \<open>Reference definitions for the fraction codec\<close>

text \<open>The direct division \<open>((high << 2) | low) / 1024\<close>: one correctly rounded
  division of two integers.\<close>

definition direct_division :: "(rat \<Rightarrow> rat) \<Rightarrow> int \<Rightarrow> int \<Rightarrow> rat" where
  "direct_division fl high low = fl (of_int (push_bit 2 high OR low) / 1024)"

text \<open>A rounding function is exact on the ten-bit grid when it returns every multiple
  of \<open>2\<^sup>-\<^sup>1\<^sup>0\<close> in \<open>[0, 1)\<close> unchanged.  Binary64 rounding is: such a number has at most ten
  significant bits.\<close>

definition exact_on_grid :: "(rat \<Rightarrow> rat) \<Rightarrow> bool" where
  "exact_on_grid fl \<longleftrightarrow> list_all (\<lambda>k. fl (of_int k / 1024) = of_int k / 1024) [0..1023]"

section \<open>Reference definitions for the manufacturer id\<close>

text \<open>The letters \<open>A\<close> to \<open>Z\<close>, and the code range 64 to 95 that the docstring of
  \<open>parse_manufacturer_id\<close> names.\<close>

definition upper_case_letter :: "nat \<Rightarrow> bool" where
  "upper_case_letter c \<longleftrightarrow> 65 \<le> c \<and> c \<le> 90"
definition at_to_underscore :: "nat \<Rightarrow> bool" where
  "at_to_underscore c \<longleftrightarrow> 64 \<le> c \<and> c \<le> 95"

section \<open>Reference definitions for the manufacturer database\<close>

text \<open>The entry of one line of the id-list format: the line is a code, whitespace and
  a name, split at the first run of whitespace; a line without both parts has no entry.\<close>

definition pnpid_entry :: "pystr \<Rightarrow> (pystr \<times> pystr) option" where
  "pnpid_entry line =
     (case parse_pnpid_line line of
        (Some i, Some n) \<Rightarrow> if i \<noteq> [] \<and> n \<noteq> [] then Some (i, n) else None
      | _ \<Rightarrow> None)"

text \<open>First-wins: a code already in the cache keeps its name; any other code gets the
  name of the first entry, in file order, that supplies it.\<close>

definition first_wins :: "pnpidcache \<Rightarrow> (pystr \<times> pystr) list \<Rightarrow> pystr \<Rightarrow> pystr option" where
  "first_wins cache entries code =
     (case map_of cache code of
        Some name \<Rightarrow> Some name
      | None \<Rightarrow> map_option snd (find (\<lambda>e. fst e = code) entries))"

section \<open>Reference definitions for the decoder\<close>

text \<open>The manufacturer database answers without raising: the cache is already filled,
  or loading it returns.\<close>

definition database_available :: "environment \<Rightarrow> pnpidcache \<Rightarrow> bool" where
  "database_available env cache \<longleftrightarrow>
     cache \<noteq> [] \<or> (case load_pnpidcache env cache of Inl e \<Rightarrow> False | Inr c \<Rightarrow> True)"

text \<open>The keys that the text descriptors write.\<close>

definition text_keys :: "string set" where
  "text_keys = {''serial_ascii'', ''ascii'', ''monitor_name''}"

text \<open>A host for the examples: Linux, none of the database files present; and the
  rounding that changes nothing.\<close>

definition example_env :: environment where
  "example_env = \<lparr>sys_platform = ''linux'', pydir_pnp_ids = ''pnp.ids'',
                   file_at = (\<lambda>path. Missing), md5_hexdigest = (\<lambda>edid. [])\<rparr>"

definition exact_rounding :: "rat \<Rightarrow> rat" where
  "exact_rounding x = x"

text \<open>Two base blocks of 128 bytes for the examples: one whose gamma byte (offset 23)
  is the sentinel \<open>0xFF\<close>, and one whose first descriptor slot (offset 54) is a
  colour-point descriptor (tag \<open>0xFB\<close>) with a white point of index 2 at slot offset 5.\<close>

definition gamma_sentinel_edid :: bytes where
  "gamma_sentinel_edid = replicate 23 0x00 @ [0xFF] @ replicate 104 0x00"

definition color_point_edid :: bytes where
  "color_point_edid =
     replicate 54 0x00
     @ [0x00, 0x00, 0x00, 0xFB, 0x00, 0x02, 0x05, 0x80, 0x40, 0x14,
        0x00, 0x00, 0x00, 0x00, 0x00, 0x00, 0x00, 0x00]
     @ replicate 56 0x00"

section \<open>Manufacturer id: the documented example\<close>

text \<open>
  Claim C8.  The two bytes \<open>0x10, 0xAC\<close>, the packed value
  \<open>(4 << 10) | (5 << 5) | 12\<close>, decode to the string \<open>DEL\<close>.
\<close>

theorem parse_manufacturer_id_DEL:
  "parse_manufacturer_id [0x10, 0xAC] = Inr [68, 69, 76] \<and> ustr ''DEL'' = [68, 69, 76]"
  by (simp add: parse_manufacturer_id_def getitem_def ebind_def combine_hi_8lo_def py_chr_def
      py_strip_def strip_chars_def py_isspace_def ustr_def)

section \<open>Fraction codec\<close>

lemma edid_get_bit_of_bool: "edid_get_bit v b = of_bool (bit v b)"
  unfolding edid_get_bit_def
  by (rule bit_eqI) (auto simp: bit_simps)

lemma pow2_grid:
  assumes "n < 10"
  shows "(2::rat) powi (int n - 10) = of_int (2 ^ n) / 1024"
proof -
  have "(2::rat) powi (int n - 10) = 2 powi int n / 2 powi 10"
    by (simp add: power_int_diff)
  then show ?thesis by simp
qed

lemma decode_loop_exact:
  assumes grid: "exact_on_grid fl"
      and "n \<le> 10"
  shows "fold (\<lambda>i result. fl (result + fl (of_int (edid_get_bit h i) * math_pow2 fl (int i - 10))))
              [0..<n] 0 = of_int (take_bit n h) / 1024"
  using \<open>n \<le> 10\<close>
proof (induction n)
  case 0
  show ?case by simp
next
  case (Suc n)
  then have n: "n < 10" by simp
  have p2: "(2::int) ^ n < 1024"
    using power_strict_increasing [of n 10 "2::int"] n by simp
  have g: "fl (of_int k / 1024) = of_int k / 1024" if "0 \<le> k" "k < 1024" for k :: int
    using grid that by (simp add: exact_on_grid_def list_all_iff)
  have pw: "math_pow2 fl (int n - 10) = of_int (2 ^ n) / 1024"
    unfolding math_pow2_def pow2_grid [OF n] by (rule g) (use p2 in simp_all)
  have prod: "fl (of_int (edid_get_bit h n) * math_pow2 fl (int n - 10))
                = of_int (2 ^ n * of_bool (bit h n)) / 1024"
  proof (cases "bit h n")
    case True
    have "fl (of_int (2 ^ n) / 1024) = of_int (2 ^ n) / 1024"
      by (rule g) (use p2 in simp_all)
    with True show ?thesis by (simp add: pw edid_get_bit_of_bool)
  next
    case False
    have "fl (of_int 0 / 1024) = of_int 0 / 1024"
      by (rule g) simp_all
    with False show ?thesis by (simp add: pw edid_get_bit_of_bool)
  qed
  have tb: "take_bit (Suc n) h = 2 ^ n * of_bool (bit h n) + take_bit n h"
    by (rule take_bit_Suc_from_most)
  have "take_bit (Suc n) h < 2 ^ Suc n" by (rule take_bit_int_less_exp)
  also have "(2::int) ^ Suc n \<le> 2 ^ 10"
    using n by (intro power_increasing) simp_all
  finally have bound: "take_bit (Suc n) h \<in> {0..<1024}" by simp
  have sum: "of_int (take_bit n h) / 1024 + of_int (2 ^ n * of_bool (bit h n)) / (1024::rat)
          = of_int (take_bit (Suc n) h) / 1024"
    unfolding tb by (simp add: add_divide_distrib)
  have IH: "fold (\<lambda>i result. fl (result + fl (of_int (edid_get_bit h i) * math_pow2 fl (int i - 10))))
              [0..<n] 0 = of_int (take_bit n h) / 1024"
    using Suc.IH n by simp
  have "fold (\<lambda>i result. fl (result + fl (of_int (edid_get_bit h i) * math_pow2 fl (int i - 10))))
              [0..<Suc n] 0
        = fl (of_int (take_bit n h) / 1024 + of_int (2 ^ n * of_bool (bit h n)) / 1024)"
    by (simp only: upt_Suc_append [OF le0] fold_append fold.simps o_apply id_apply IH prod)
  also have "\<dots> = fl (of_int (take_bit (Suc n) h) / 1024)"
    by (simp only: sum)
  also have "\<dots> = of_int (take_bit (Suc n) h) / 1024"
    by (rule g) (use bound in simp_all)
  finally show ?case .
qed

lemma decode_fraction_exact:
  assumes "exact_on_grid fl"
  shows "edid_decode_fraction fl high low = of_int (take_bit 10 (push_bit 2 high OR low)) / 1024"
  unfolding edid_decode_fraction_def Let_def
  by (rule decode_loop_exact [OF assms]) simp

lemma weighted_sum_take_bit:
  assumes "n \<le> 10"
  shows "(\<Sum>i = 0..<n. of_int (edid_get_bit h i) * (2::rat) powi (int i - 10))
           = of_int (take_bit n h) / 1024"
  using assms
proof (induction n)
  case 0
  show ?case by simp
next
  case (Suc n)
  then have n: "n < 10" by simp
  have tb: "take_bit (Suc n) h = 2 ^ n * of_bool (bit h n) + take_bit n h"
    by (rule take_bit_Suc_from_most)
  show ?case
    using Suc.IH n
    by (simp add: pow2_grid edid_get_bit_of_bool tb add_divide_distrib)
qed

lemma combined_range:
  assumes "0 \<le> (high::int)" "high < 256" "0 \<le> (low::int)" "low < 4"
  shows "take_bit 10 (push_bit 2 high OR low) = push_bit 2 high OR low"
proof -
  have "push_bit 2 high OR low < 2 ^ 10"
    using assms by (intro OR_upper) (simp_all add: push_bit_eq_mult)
  moreover have "0 \<le> push_bit 2 high OR low"
    using assms by simp
  ultimately show ?thesis by (simp only: take_bit_int_eq_self)
qed

lemma exact_on_grid_id: "exact_on_grid (\<lambda>x. x)"
  by (simp add: exact_on_grid_def list_all_iff)

text \<open>
  Claim C7.  With a rounding that is exact on the ten-bit grid,
  \<open>edid_decode_fraction(0, 0)\<close> is \<open>0.0\<close>, \<open>edid_decode_fraction(0xFF, 0b11)\<close> is
  \<open>1023/1024\<close>, and for every high byte and two-bit low value the result is the sum of
  \<open>bit(i) * 2 ^ (i - 10)\<close> over \<open>i\<close> in \<open>0..9\<close> of the combined value
  \<open>(high << 2) | low\<close> and lies in \<open>[0, 1)\<close>.
\<close>

theorem edid_decode_fraction_weighted_sum:
  assumes "exact_on_grid fl" "0 \<le> high" "high < 256" "0 \<le> low" "low < 4"
  shows "edid_decode_fraction fl 0 0 = 0 \<and>
         edid_decode_fraction fl 0xFF 3 = 1023 / 1024 \<and>
         edid_decode_fraction fl high low =
           (\<Sum>i = 0..<10. of_int (edid_get_bit (push_bit 2 high OR low) i) * 2 powi (int i - 10)) \<and>
         0 \<le> edid_decode_fraction fl high low \<and>
         edid_decode_fraction fl high low < 1"
proof -
  have zero: "edid_decode_fraction fl 0 0 = 0"
    by (simp add: decode_fraction_exact [OF assms(1)])
  have top: "edid_decode_fraction fl 0xFF 3 = 1023 / 1024"
    by (simp add: decode_fraction_exact [OF assms(1)])
  have val: "edid_decode_fraction fl high low
               = of_int (take_bit 10 (push_bit 2 high OR low)) / 1024"
    by (rule decode_fraction_exact [OF assms(1)])
  have sum: "edid_decode_fraction fl high low =
      (\<Sum>i = 0..<10. of_int (edid_get_bit (push_bit 2 high OR low) i) * 2 powi (int i - 10))"
    unfolding val by (rule weighted_sum_take_bit [symmetric]) simp
  have "take_bit 10 (push_bit 2 high OR low) < 2 ^ 10"
    by (rule take_bit_int_less_exp)
  then have upper: "edid_decode_fraction fl high low < 1"
    unfolding val by simp
  have lower: "0 \<le> edid_decode_fraction fl high low"
    unfolding val by simp
  from zero top sum lower upper show ?thesis by simp
qed

theorem edid_decode_fraction_weighted_sum_witness:
  "exact_on_grid (\<lambda>x. x) \<and>
   edid_decode_fraction (\<lambda>x. x) 18 2 = 37 / 512 \<and>
   edid_decode_fraction (\<lambda>x. x) 18 2 =
     (\<Sum>i = 0..<10. of_int (edid_get_bit (push_bit 2 18 OR 2) i) * 2 powi (int i - 10)) \<and>
   0 \<le> edid_decode_fraction (\<lambda>x. x) 18 2 \<and>
   edid_decode_fraction (\<lambda>x. x) 18 2 < 1"
proof -
  have v: "edid_decode_fraction (\<lambda>x. x) 18 2 = 37 / 512"
    by (simp add: decode_fraction_exact [OF exact_on_grid_id])
  have r: "(0::int) \<le> 18" "(18::int) < 256" "(0::int) \<le> 2" "(2::int) < 4"
    by simp_all
  from edid_decode_fraction_weighted_sum [OF exact_on_grid_id r] v exact_on_grid_id
  show ?thesis by blast
qed

text \<open>
  Claim C10.  For every high byte in \<open>[0, 255]\<close> and every low value in \<open>[0, 3]\<close>
  the bit-weighted summation of \<open>edid_decode_fraction\<close> equals the direct division
  \<open>((high << 2) | low) / 1024\<close> exactly, for every rounding that is exact on the ten-bit
  grid.
\<close>

theorem edid_decode_fraction_eq_direct_division:
  assumes "exact_on_grid fl" "0 \<le> high" "high < 256" "0 \<le> low" "low < 4"
  shows "edid_decode_fraction fl high low = direct_division fl high low \<and>
         direct_division fl high low = of_int (push_bit 2 high OR low) / 1024"
proof -
  have range: "take_bit 10 (push_bit 2 high OR low) = push_bit 2 high OR low"
    by (rule combined_range) (use assms in simp_all)
  have "0 \<le> take_bit 10 (push_bit 2 high OR low)" "take_bit 10 (push_bit 2 high OR low) < 2 ^ 10"
    by (simp, rule take_bit_int_less_exp)
  then have bound: "0 \<le> push_bit 2 high OR low" "push_bit 2 high OR low < 1024"
    unfolding range by simp_all
  have "fl (of_int (push_bit 2 high OR low) / 1024) = of_int (push_bit 2 high OR low) / 1024"
    using assms(1) bound by (simp add: exact_on_grid_def list_all_iff)
  then have dd: "direct_division fl high low = of_int (push_bit 2 high OR low) / 1024"
    by (simp add: direct_division_def)
  have "edid_decode_fraction fl high low = of_int (push_bit 2 high OR low) / 1024"
    using decode_fraction_exact [OF assms(1), of high low] by (simp only: range)
  with dd show ?thesis by simp
qed

theorem edid_decode_fraction_eq_direct_division_witness:
  "edid_decode_fraction (\<lambda>x. x) 0x80 1 = direct_division (\<lambda>x. x) 0x80 1 \<and>
   direct_division (\<lambda>x. x) 0x80 1 = 513 / 1024"
  using edid_decode_fraction_eq_direct_division [of "\<lambda>x. x" "0x80" 1] exact_on_grid_id
  by simp

section \<open>Manufacturer id: range of the characters\<close>

lemma strip_chars_id:
  assumes "s \<noteq> []" "\<not> p (hd s)" "\<not> p (last s)"
  shows "strip_chars p s = s"
proof -
  have "dropWhile p s = s" using assms by (cases s) simp_all
  moreover have "dropWhile p (rev s) = rev s"
    using assms by (cases "rev s") (simp_all add: last_rev [symmetric] hd_rev)
  ultimately show ?thesis by (simp add: strip_chars_def)
qed

lemma five_bit_field: "0 \<le> (x::int) AND 0x1F" "(x::int) AND 0x1F \<le> 31"
  by simp_all

lemma manufacturer_char:
  "py_chr (((x::int) AND 0x1F) + int (of_char CHR ''A'') - 1) = Inr (nat ((x AND 0x1F) + 64))"
proof -
  have "((x::int) AND 0x1F) + int (of_char CHR ''A'') - 1 = (x AND 0x1F) + 64"
    by simp
  moreover have "0 \<le> (x AND 0x1F) + 64" "(x AND 0x1F) + 64 < 0x110000"
    using five_bit_field [of x] by linarith+
  ultimately show ?thesis
    by (simp only: py_chr_def simp_thms if_True)
qed

lemma manufacturer_char_range:
  "64 \<le> nat (((x::int) AND 0x1F) + 64)" "nat (((x::int) AND 0x1F) + 64) \<le> 95"
  using five_bit_field [of x] by linarith+

lemma not_space_64_95: "64 \<le> c \<Longrightarrow> c \<le> 95 \<Longrightarrow> \<not> py_isspace c"
  by (simp add: py_isspace_def)

lemma parse_manufacturer_id_value:
  "parse_manufacturer_id [a, b] =
     Inr [nat ((drop_bit 10 (combine_hi_8lo (uint a) (uint b)) AND 0x1F) + 64),
          nat ((drop_bit 5 (combine_hi_8lo (uint a) (uint b)) AND 0x1F) + 64),
          nat ((drop_bit 0 (combine_hi_8lo (uint a) (uint b)) AND 0x1F) + 64)]"
    (is "_ = Inr ?s")
proof -
  have chars: "manufacturer_chars h [10, 5, 0] =
      Inr [nat ((drop_bit 10 h AND 0x1F) + 64), nat ((drop_bit 5 h AND 0x1F) + 64),
           nat ((drop_bit 0 h AND 0x1F) + 64)]" for h
    by (simp only: manufacturer_chars.simps manufacturer_char ebind_def sum.case)
  have items: "getitem [a, b] 0 = Inr (uint a)" "getitem [a, b] 1 = Inr (uint b)"
    by (simp_all add: getitem_def)
  have "strip_chars py_isspace ?s = ?s"
    by (rule strip_chars_id) (simp_all only: list.sel last.simps list.simps if_False if_True
        not_space_64_95 [OF manufacturer_char_range] simp_thms)
  then show ?thesis
    by (simp only: parse_manufacturer_id_def py_strip_def items chars ebind_def sum.case)
qed

text \<open>
  Claim C3, as amended.  For every two-byte block \<open>parse_manufacturer_id\<close> returns a
  string of exactly three characters, each with a code from 64 to 95 (\<open>@\<close>, the letters
  \<open>A\<close> to \<open>Z\<close>, and the five characters after \<open>Z\<close>).
\<close>

theorem parse_manufacturer_id_range:
  assumes "length block = 2"
  shows "\<exists>s. parse_manufacturer_id block = Inr s \<and> length s = 3 \<and> list_all at_to_underscore s"
proof -
  from assms obtain a b where block: "block = [a, b]"
    by (cases block; cases "tl block") auto
  show ?thesis
    unfolding block parse_manufacturer_id_value
    using manufacturer_char_range by (simp add: at_to_underscore_def)
qed

theorem parse_manufacturer_id_range_witness:
  "length [0x10, 0xAC :: 8 word] = 2 \<and>
   parse_manufacturer_id [0x10, 0xAC] = Inr [68, 69, 76] \<and> list_all at_to_underscore [68, 69, 76]"
  using parse_manufacturer_id_range [of "[0x10, 0xAC]"]
  by (simp add: parse_manufacturer_id_value combine_hi_8lo_def at_to_underscore_def)

text \<open>
  Claim C3, as stated, fails: the block \<open>00 00\<close> decodes to \<open>@@@\<close>, which has no
  letter in it.
\<close>

theorem parse_manufacturer_id_not_letters:
  "parse_manufacturer_id [0x00, 0x00] = Inr [64, 64, 64] \<and> \<not> list_all upper_case_letter [64, 64, 64]"
  by (simp add: parse_manufacturer_id_value combine_hi_8lo_def upper_case_letter_def)

section \<open>String sanitizer\<close>

lemma replace_step_at:
  assumes "length pre = i"
  shows "replace_step i (pre @ x # post, c) =
           (pre @ (if non_printable x then 0 else x) # post,
            c + (if non_printable x then 1 else 0))"
  using assms by (simp add: replace_step_def non_printable_def nth_append list_update_append)

lemma replace_loop:
  "n \<le> length d \<Longrightarrow>
   fold replace_step [0..<n] (d, c) =
     (map (\<lambda>x. if non_printable x then 0 else x) (take n d) @ drop n d,
      c + length (filter non_printable (take n d)))"
proof (induction n)
  case 0
  show ?case by simp
next
  case (Suc n)
  then have n: "n < length d" by simp
  let ?g = "\<lambda>x. if non_printable x then 0 else x"
  have tk: "take (Suc n) d = take n d @ [d ! n]"
    using n by (simp add: take_Suc_conv_app_nth)
  have dr: "drop n d = d ! n # drop (Suc n) d"
    using n by (simp add: Cons_nth_drop_Suc)
  have "fold replace_step [0..<Suc n] (d, c)
          = replace_step n (map ?g (take n d) @ d ! n # drop (Suc n) d,
                            c + length (filter non_printable (take n d)))"
    using Suc.IH n by (simp add: dr [symmetric])
  also have "\<dots> = (map ?g (take n d) @ ?g (d ! n) # drop (Suc n) d,
                     c + length (filter non_printable (take n d))
                       + (if non_printable (d ! n) then 1 else 0))"
    by (rule replace_step_at) (use n in simp)
  also have "\<dots> = (map ?g (take (Suc n) d) @ drop (Suc n) d,
                     c + length (filter non_printable (take (Suc n) d)))"
    by (simp add: tk)
  finally show ?case .
qed

lemma edid_parse_string_eq:
  "edid_parse_string desc =
     (if length (filter non_printable (edid_string_text desc)) \<le> 4
      then Some (map (\<lambda>x. if non_printable x then 0x2D else x) (edid_string_text desc))
      else None)"
proof -
  have "fold replace_step [0..<length (edid_string_text desc)] (edid_string_text desc, 0)
          = (map (\<lambda>x. if non_printable x then 0 else x) (edid_string_text desc),
             length (filter non_printable (edid_string_text desc)))"
    using replace_loop [of "length (edid_string_text desc)" "edid_string_text desc" 0] by simp
  moreover have "bytes_replace 0x00 0x2D (map (\<lambda>x. if non_printable x then 0 else x) t)
                   = map (\<lambda>x. if non_printable x then 0x2D else x) t" for t
    by (auto simp: bytes_replace_def non_printable_def)
  ultimately show ?thesis
    by (simp add: edid_parse_string_def Let_def)
qed

lemma printable_range: "\<not> non_printable x \<longleftrightarrow> 32 \<le> x \<and> x \<le> 126"
  by (auto simp: non_printable_def)


lemmas string_eval = edid_parse_string_eq edid_string_text_def bytes_replace_def bytes_find_def
  bytes_rstrip_def bytes_isspace_def non_printable_def Let_def

text \<open>
  Claim C6, as amended.  \<open>edid_parse_string\<close> returns nothing precisely when more than
  four bytes of the text that is left after truncation to 13 bytes, the cut at the first
  NUL, newline or carriage return, and the removal of trailing whitespace lie outside
  printable ASCII \<open>[32, 126]\<close>; otherwise it returns that text with each such byte
  replaced by \<open>-\<close>, and every byte of the result is printable.
\<close>

theorem edid_parse_string_threshold:
  "edid_parse_string desc =
     (if 4 < length (filter non_printable (edid_string_text desc)) then None
      else Some (map (\<lambda>x. if non_printable x then 0x2D else x) (edid_string_text desc))) \<and>
   list_all (\<lambda>x. 32 \<le> x \<and> x \<le> 126)
     (map (\<lambda>x. if non_printable x then 0x2D else x) (edid_string_text desc))"
  by (auto simp: edid_parse_string_eq list_all_iff non_printable_def)

theorem edid_parse_string_threshold_witness:
  "edid_string_text (map of_char ''ACME Monitor'' @ [0x0A]) = map of_char ''ACME Monitor'' \<and>
   edid_parse_string (map of_char ''ACME Monitor'' @ [0x0A]) = Some (map of_char ''ACME Monitor'')"
proof -
  have t: "edid_string_text (map of_char ''ACME Monitor'' @ [0x0A]) = map of_char ''ACME Monitor''"
    by (simp add: string_eval)
  from edid_parse_string_threshold [of "map of_char ''ACME Monitor'' @ [0x0A]"]
  show ?thesis unfolding t by (simp add: non_printable_def)
qed

text \<open>
  Claim C6, as stated, fails: bytes after the first terminator are not counted.  The run
  \<open>41 00 01 02 03 04 05\<close> has six bytes outside \<open>[32, 126]\<close> and is accepted as \<open>A\<close>.
\<close>

theorem edid_parse_string_accepts_six_non_printable:
  "length (filter non_printable [0x41, 0x00, 0x01, 0x02, 0x03, 0x04, 0x05]) = 6 \<and>
   edid_parse_string [0x41, 0x00, 0x01, 0x02, 0x03, 0x04, 0x05] = Some [0x41]"
  by (simp add: string_eval)

section \<open>The block parsers and the decoder: when they return, and what\<close>

lemma ebind_Inr [simp]: "ebind (Inr x) f = f x"
  by (simp add: ebind_def)

lemma ebind_Inl [simp]: "ebind (Inl e) f = Inl e"
  by (simp add: ebind_def)

lemma ebind_eq_Inr: "ebind m f = Inr y \<longleftrightarrow> (\<exists>x. m = Inr x \<and> f x = Inr y)"
  by (cases m) simp_all

lemma getitem_Inr: "i < length b \<Longrightarrow> getitem b i = Inr (uint (b ! i))"
  by (simp add: getitem_def)

lemma getitem_eq_Inr: "getitem b i = Inr v \<longleftrightarrow> i < length b \<and> v = uint (b ! i)"
  by (auto simp: getitem_def)

lemma py_eq_int_bytes [simp]: "py_eq (PInt i) (PBytes b) = False"
  by simp

lemma py_ne_int_bytes [simp]: "py_ne (PInt i) (PBytes b) = True"
  by (simp add: py_ne_def)

lemma py_ne_int_str [simp]: "py_ne (PInt i) (PStr s) = True"
  by (simp add: py_ne_def)

lemmas layout =
  HEADER_def MANUFACTURER_ID_def PRODUCT_ID_def SERIAL_32_def WEEK_OF_MANUFACTURE_def
  YEAR_OF_MANUFACTURE_def EDID_VERSION_def EDID_REVISION_def MAX_H_SIZE_CM_def MAX_V_SIZE_CM_def
  GAMMA_def FEATURES_def LO_RG_XY_def LO_BW_XY_def HI_R_X_def HI_R_Y_def HI_G_X_def HI_G_Y_def
  HI_B_X_def HI_B_Y_def HI_W_X_def HI_W_Y_def BLOCKS_def BLOCK_TYPE_def BLOCK_CONTENTS_def
  EXTENSION_FLAG_def CHECKSUM_def TRC_def

lemma basic_display_parameters_gamma:
  assumes "25 \<le> length edid"
  shows "\<exists>r. parse_edid_basic_display_parameters fl edid = Inr r \<and>
             r ''gamma'' = Some (PFloat (fl (fl (of_int (uint (edid ! 23)) / 100) + 1))) \<and>
             r ''edid'' = None"
  using assms
  by (simp add: parse_edid_basic_display_parameters_def layout getitem_Inr struct_unpack_le_def
      py_slice_def Let_def)

lemma basic_display_parameters_returns:
  "(\<exists>r. parse_edid_basic_display_parameters fl edid = Inr r) \<longleftrightarrow> 25 \<le> length edid"
proof
  assume "\<exists>r. parse_edid_basic_display_parameters fl edid = Inr r"
  then have "24 < length edid"
    by (auto simp: parse_edid_basic_display_parameters_def ebind_eq_Inr getitem_eq_Inr layout Let_def)
  then show "25 \<le> length edid" by simp
next
  assume "25 \<le> length edid"
  from basic_display_parameters_gamma [OF this] show "\<exists>r. parse_edid_basic_display_parameters fl edid = Inr r"
    by blast
qed


lemma chromaticity_entry_value:
  assumes "hi < length edid" "lo < length edid" "b \<le> e"
  shows "chromaticity_entry fl edid hi lo b e =
           Inr (PFloat (edid_decode_fraction fl (uint (edid ! hi))
                  (drop_bit b (uint (edid ! lo)) AND (push_bit (Suc e - b) 1 - 1))))"
  using assms by (simp add: chromaticity_entry_def getitem_Inr edid_get_bits_def)

lemma chromaticity_returns:
  assumes "35 \<le> length edid"
  shows "\<exists>r. parse_edid_chromaticity_coordinates fl edid = Inr r"
  using assms
  by (simp add: parse_edid_chromaticity_coordinates_def layout chromaticity_entry_value)

lemma chromaticity_keys:
  assumes "parse_edid_chromaticity_coordinates fl edid = Inr r"
  shows "r ''gamma'' = None \<and> r ''edid'' = None"
  using assms by (auto simp: parse_edid_chromaticity_coordinates_def ebind_eq_Inr)

lemma extension_page_returns: "block \<noteq> [] \<Longrightarrow> extension_page block = Inr ()"
  by (cases block) (simp_all add: extension_page_def getitem_def)

lemma extension_loop_returns: "extension_loop block = Inr ()"
proof (induction block rule: extension_loop.induct)
  case (1 block)
  show ?case
  proof (cases "block = []")
    case True
    then show ?thesis by (simp add: extension_loop.simps)
  next
    case False
    with 1 [OF False extension_page_returns [OF False]] show ?thesis
      by (subst extension_loop.simps) (simp add: extension_page_returns)
  qed
qed

lemma extension_blocks_value:
  assumes "128 \<le> length edid"
  shows "parse_edid_extension_blocks edid =
           Inr [''ext_flag'' \<mapsto> PInt (uint (edid ! 126)),
                ''checksum'' \<mapsto> PInt (uint (edid ! 127)),
                ''checksum_valid'' \<mapsto> PBool (sum_list (map uint edid) mod 256 = 0)]"
  using assms
  by (simp add: parse_edid_extension_blocks_def layout getitem_Inr extension_loop_returns Let_def)

lemma extension_blocks_returns:
  "(\<exists>r. parse_edid_extension_blocks edid = Inr r) \<longleftrightarrow> 128 \<le> length edid"
proof
  assume "\<exists>r. parse_edid_extension_blocks edid = Inr r"
  then have "127 < length edid"
    by (auto simp: parse_edid_extension_blocks_def ebind_eq_Inr getitem_eq_Inr layout)
  then show "128 \<le> length edid" by simp
next
  assume "128 \<le> length edid"
  then show "\<exists>r. parse_edid_extension_blocks edid = Inr r"
    by (simp add: extension_blocks_value)
qed


lemma utf8_decode_ascii:
  "list_all (\<lambda>x. x < 0x80) b \<Longrightarrow> utf8_decode b = Inr (map unat b)"
  by (induction b) simp_all

lemma edid_parse_string_ascii:
  assumes "edid_parse_string desc = Some d"
  shows "list_all (\<lambda>x. x < 0x80) d"
proof -
  have "x < 0x80" if "\<not> 126 < x" for x :: "8 word"
    using that by (simp add: word_le_nat_alt word_less_nat_alt not_less)
  moreover have "d = map (\<lambda>x. if non_printable x then 0x2D else x) (edid_string_text desc)"
    using assms by (simp add: edid_parse_string_eq split: if_splits)
  ultimately show ?thesis
    by (auto simp: list_all_iff non_printable_def)
qed

lemma text_types_cases:
  "text_types x = Some t \<Longrightarrow> t \<in> {''serial_ascii'', ''ascii'', ''monitor_name''}"
  by (auto simp: text_types_def split: if_splits)

lemma descriptor_loop_step:
  "descriptor_loop fl edid ((start, stop) # rest) result =
     (if py_slice (py_slice edid start stop) 0 3 \<noteq> [0, 0, 0] then descriptor_loop fl edid rest result
      else case text_types (py_slice (py_slice edid start stop) 3 4) of
             Some t \<Rightarrow>
               (case edid_parse_string (py_slice (py_slice edid start stop) 5 18) of
                  Some desc \<Rightarrow> descriptor_loop fl edid rest (result(t \<mapsto> PStr (map unat desc)))
                | None \<Rightarrow> descriptor_loop fl edid rest result)
           | None \<Rightarrow>
               if 3 < length (py_slice edid start stop) then descriptor_loop fl edid rest result
               else Inl IndexError)"
proof (cases "text_types (py_slice (py_slice edid start stop) 3 4)")
  case None
  then show ?thesis
    by (simp add: layout Let_def py_ne_def getitem_def)
next
  case (Some t)
  then have "t \<noteq> []" using text_types_cases [OF Some] by auto
  with Some show ?thesis
    by (auto simp: layout Let_def py_ne_def utf8_decode_ascii edid_parse_string_ascii
        split: option.splits)
qed

lemma descriptor_loop_keys:
  "descriptor_loop fl edid blocks result = Inr d \<Longrightarrow> k \<notin> text_keys \<Longrightarrow> d k = result k"
proof (induction blocks arbitrary: result)
  case Nil
  then show ?case by simp
next
  case (Cons block blocks)
  obtain start stop where block: "block = (start, stop)" by (cases block)
  from Cons.prems show ?case
    unfolding block descriptor_loop_step
    by (auto simp: text_keys_def dest!: Cons.IH text_types_cases split: if_splits option.splits)
qed

lemma descriptor_loop_returns:
  "list_all (\<lambda>(start, stop). start + 4 \<le> stop \<and> start + 4 \<le> length edid) blocks \<Longrightarrow>
   \<exists>d. descriptor_loop fl edid blocks result = Inr d"
proof (induction blocks arbitrary: result)
  case Nil
  show ?case by simp
next
  case (Cons block blocks)
  obtain start stop where block: "block = (start, stop)" by (cases block)
  from Cons.prems have "start + 4 \<le> stop" "start + 4 \<le> length edid"
    by (simp_all add: block)
  then have len: "3 < length (py_slice edid start stop)"
    by (simp add: py_slice_def)
  from Cons.prems have "\<exists>d. descriptor_loop fl edid blocks r = Inr d" for r
    by (intro Cons.IH) simp
  with len show ?case
    unfolding block descriptor_loop_step by (simp split: option.splits)
qed

lemma descriptor_blocks_returns:
  "112 \<le> length edid \<Longrightarrow> \<exists>d. parse_edid_descriptor_blocks fl edid = Inr d"
  unfolding parse_edid_descriptor_blocks_def
  by (rule descriptor_loop_returns) (simp add: BLOCKS_def)

lemma descriptor_blocks_keys:
  "parse_edid_descriptor_blocks fl edid = Inr d \<Longrightarrow> k \<notin> text_keys \<Longrightarrow> d k = None"
  unfolding parse_edid_descriptor_blocks_def
  by (drule descriptor_loop_keys) simp_all


lemma get_manufacturer_name_returns:
  "(\<exists>x. get_manufacturer_name env cache mid = Inr x) \<longleftrightarrow> database_available env cache"
  by (auto simp: get_manufacturer_name_def database_available_def ebind_eq_Inr split: sum.splits)

lemma manufacturer_id_slice:
  assumes "10 \<le> length edid"
  shows "py_slice edid (fst MANUFACTURER_ID) (snd MANUFACTURER_ID) = [edid ! 8, edid ! 9]"
proof -
  have "drop 8 (take 10 edid) = [edid ! 8, edid ! 9]"
    using assms by (simp add: list_eq_iff_nth_eq nth_Cons split: nat.splits)
  then show ?thesis by (simp add: py_slice_def layout)
qed

lemma parse_manufacturer_id_short:
  "length block < 2 \<Longrightarrow> parse_manufacturer_id block = Inl IndexError"
  by (cases block; cases "tl block") (auto simp: parse_manufacturer_id_def getitem_def)

lemma parse_edid_header_returns:
  "(\<exists>x. parse_edid_header env cache edid = Inr x) \<longleftrightarrow>
     10 \<le> length edid \<and> database_available env cache"
proof (cases "10 \<le> length edid")
  case True
  show ?thesis
    using True get_manufacturer_name_returns [of env cache]
    by (simp add: parse_edid_header_def manufacturer_id_slice parse_manufacturer_id_value
        ebind_eq_Inr Let_def split_beta) blast
next
  case False
  then have "length (py_slice edid (fst MANUFACTURER_ID) (snd MANUFACTURER_ID)) < 2"
    by (auto simp: py_slice_def layout)
  with False show ?thesis
    by (simp add: parse_edid_header_def parse_manufacturer_id_short)
qed

lemma parse_edid_header_keys:
  assumes "parse_edid_header env cache edid = Inr (r, c)"
  shows "r ''edid'' = Some (PBytes edid) \<and> r ''gamma'' = None"
  using assms
  by (auto simp: parse_edid_header_def ebind_eq_Inr Let_def split: option.splits if_splits)

lemma normalize_edid_bytes:
  assumes "length b \<in> {128, 256, 384} \<or> (0xC2 \<notin> set b \<and> 0xC3 \<notin> set b)"
  shows "normalize_edid (EBytes b) = Inr b"
  using assms by (auto simp: normalize_edid_def)


lemma parse_edid_Inr_D:
  assumes "parse_edid fl env cache inp = Inr (r, c)"
  shows "\<exists>buf. normalize_edid inp = Inr buf \<and> 128 \<le> length buf \<and> database_available env cache \<and>
           r ''edid'' = Some (PBytes buf) \<and>
           r ''gamma'' = Some (PFloat (fl (fl (of_int (uint (buf ! 23)) / 100) + 1))) \<and>
           r ''checksum_valid'' = Some (PBool (sum_list (map uint buf) mod 256 = 0))"
proof -
  from assms obtain buf h b ch d e
    where n: "normalize_edid inp = Inr buf"
      and h: "parse_edid_header env cache buf = Inr (h, c)"
      and b: "parse_edid_basic_display_parameters fl buf = Inr b"
      and ch: "parse_edid_chromaticity_coordinates fl buf = Inr ch"
      and d: "parse_edid_descriptor_blocks fl buf = Inr d"
      and e: "parse_edid_extension_blocks buf = Inr e"
      and r: "r = h ++ b ++ ch ++ d ++ e"
    by (auto simp: parse_edid_def ebind_eq_Inr)
  from e have len: "128 \<le> length buf"
    using extension_blocks_returns [of buf] by blast
  from h have db: "database_available env cache"
    using parse_edid_header_returns [of env cache buf] by blast
  from len have "25 \<le> length buf" by simp
  from basic_display_parameters_gamma [OF this, of fl] b
  have bg: "b ''gamma'' = Some (PFloat (fl (fl (of_int (uint (buf ! 23)) / 100) + 1)))"
    and be: "b ''edid'' = None"
    by auto
  from e have ev: "e = [''ext_flag'' \<mapsto> PInt (uint (buf ! 126)),
                        ''checksum'' \<mapsto> PInt (uint (buf ! 127)),
                        ''checksum_valid'' \<mapsto> PBool (sum_list (map uint buf) mod 256 = 0)]"
    by (simp add: extension_blocks_value [OF len])
  have dk: "d ''gamma'' = None" "d ''edid'' = None"
    by (rule descriptor_blocks_keys [OF d], simp add: text_keys_def)+
  note ck = chromaticity_keys [OF ch]
  note hk = parse_edid_header_keys [OF h]
  have "r ''edid'' = Some (PBytes buf)"
    by (simp add: r ev map_add_def dk ck be hk)
  moreover have "r ''gamma'' = Some (PFloat (fl (fl (of_int (uint (buf ! 23)) / 100) + 1)))"
    by (simp add: r ev map_add_def dk ck bg)
  moreover have "r ''checksum_valid'' = Some (PBool (sum_list (map uint buf) mod 256 = 0))"
    by (simp add: r ev map_add_def)
  ultimately show ?thesis using n len db by blast
qed

lemma parse_edid_Inr_I:
  assumes "normalize_edid inp = Inr buf" "128 \<le> length buf" "database_available env cache"
  shows "\<exists>r c. parse_edid fl env cache inp = Inr (r, c)"
proof -
  from assms obtain h c where "parse_edid_header env cache buf = Inr (h, c)"
    using parse_edid_header_returns [of env cache buf] by auto
  moreover obtain b where "parse_edid_basic_display_parameters fl buf = Inr b"
    using basic_display_parameters_returns [of fl buf] assms(2) by auto
  moreover obtain ch where "parse_edid_chromaticity_coordinates fl buf = Inr ch"
    using chromaticity_returns [of buf fl] assms(2) by auto
  moreover obtain d where "parse_edid_descriptor_blocks fl buf = Inr d"
    using descriptor_blocks_returns [of buf fl] assms(2) by auto
  moreover obtain e where "parse_edid_extension_blocks buf = Inr e"
    using extension_blocks_returns [of buf] assms(2) by auto
  ultimately show ?thesis
    by (simp add: parse_edid_def assms(1))
qed

section \<open>The checksum flag\<close>

lemma database_available_example: "database_available example_env []"
  by (simp add: database_available_def load_pnpidcache_def get_pnpid_paths_def example_env_def)

lemma exact_on_grid_exact_rounding: "exact_on_grid exact_rounding"
  by (simp add: exact_on_grid_def list_all_iff exact_rounding_def)

text \<open>
  Claim C5.  Whenever \<open>parse_edid\<close> returns a record, the record holds the decoded
  buffer under \<open>edid\<close>, whatever its number of pages, and its \<open>checksum_valid\<close> field
  is true if and only if the sum of all bytes of that buffer is 0 modulo 256.
\<close>

theorem checksum_valid_sum:
  assumes "parse_edid fl env cache inp = Inr (r, c)"
  shows "\<exists>buf. normalize_edid inp = Inr buf \<and> r ''edid'' = Some (PBytes buf) \<and>
           r ''checksum_valid'' = Some (PBool (sum_list (map uint buf) mod 256 = 0))"
  using parse_edid_Inr_D [OF assms] by blast

theorem checksum_valid_sum_witness:
  "\<exists>r c. parse_edid exact_rounding example_env []
            (EBytes (replicate 126 0x00 @ [0x01, 0xFF] @ replicate 128 0x00)) = Inr (r, c) \<and>
         r ''edid'' = Some (PBytes (replicate 126 0x00 @ [0x01, 0xFF] @ replicate 128 0x00)) \<and>
         r ''checksum_valid'' = Some (PBool True)"
proof -
  let ?b = "replicate 126 0x00 @ [0x01, 0xFF] @ replicate 128 (0x00 :: 8 word)"
  have n: "normalize_edid (EBytes ?b) = Inr ?b"
    by (rule normalize_edid_bytes) simp
  have s: "sum_list (map uint ?b) = 256"
    by (simp add: sum_list_replicate)
  from parse_edid_Inr_I [OF n _ database_available_example, of exact_rounding]
  obtain r c where run: "parse_edid exact_rounding example_env [] (EBytes ?b) = Inr (r, c)"
    by auto
  from checksum_valid_sum [OF run] obtain buf
    where b: "normalize_edid (EBytes ?b) = Inr buf"
      and e: "r ''edid'' = Some (PBytes buf)"
      and k: "r ''checksum_valid'' = Some (PBool (sum_list (map uint buf) mod 256 = 0))"
    by blast
  from b have buf: "buf = ?b" by (simp only: n sum.inject)
  have "r ''checksum_valid'' = Some (PBool ((256::int) mod 256 = 0))"
    using k unfolding buf s .
  then have "r ''checksum_valid'' = Some (PBool True)" by simp
  with run e buf show ?thesis by blast
qed

section \<open>When the decoder returns\<close>

lemma utf8_decode_ascii_append:
  "list_all (\<lambda>x. x < 0x80) a \<Longrightarrow>
   utf8_decode (a @ rest) = ebind (utf8_decode rest) (\<lambda>cs. Inr (map unat a @ cs))"
proof (induction a)
  case Nil
  show ?case by (cases "utf8_decode rest") simp_all
next
  case (Cons x a)
  then show ?case by (cases "utf8_decode rest") simp_all
qed

text \<open>
  Claim C2, as amended.  \<open>parse_edid\<close> returns a record exactly when the normalisation
  of the input succeeds, the normalised buffer has at least 128 bytes, and the
  manufacturer database answers without raising.  In particular, whenever the
  manufacturer database answers without raising, it returns for every byte buffer of at
  least 128 bytes whose length is 128, 256 or 384 or which holds neither \<open>0xC2\<close> nor
  \<open>0xC3\<close>.
\<close>

theorem parse_edid_returns_iff:
  "((\<exists>r c. parse_edid fl env cache inp = Inr (r, c)) \<longleftrightarrow>
      (\<exists>buf. normalize_edid inp = Inr buf \<and> 128 \<le> length buf \<and> database_available env cache)) \<and>
   (128 \<le> length b \<and> (length b \<in> {128, 256, 384} \<or> 0xC2 \<notin> set b \<and> 0xC3 \<notin> set b) \<and>
    database_available env cache \<longrightarrow>
      (\<exists>r c. parse_edid fl env cache (EBytes b) = Inr (r, c)))"
proof -
  have "\<exists>buf. normalize_edid inp = Inr buf \<and> 128 \<le> length buf \<and> database_available env cache"
    if "parse_edid fl env cache inp = Inr (r, c)" for r c
    using parse_edid_Inr_D [OF that] by blast
  moreover have "\<exists>r c. parse_edid fl env cache i = Inr (r, c)"
    if "normalize_edid i = Inr buf" "128 \<le> length buf" "database_available env cache" for buf i
    using that by (rule parse_edid_Inr_I)
  moreover have "normalize_edid (EBytes b) = Inr b"
    if "length b \<in> {128, 256, 384} \<or> 0xC2 \<notin> set b \<and> 0xC3 \<notin> set b"
    using that by (rule normalize_edid_bytes)
  ultimately show ?thesis by blast
qed

theorem parse_edid_returns_iff_witness:
  "\<exists>r c. parse_edid exact_rounding example_env [] (EBytes (replicate 128 0x00 @ [0x01])) = Inr (r, c)"
proof -
  let ?b = "replicate 128 0x00 @ [0x01 :: 8 word]"
  have "128 \<le> length ?b \<and> (length ?b \<in> {128, 256, 384} \<or> 0xC2 \<notin> set ?b \<and> 0xC3 \<notin> set ?b) \<and>
        database_available example_env []"
    by (simp add: database_available_example)
  with parse_edid_returns_iff [of exact_rounding example_env "[]" "EBytes ?b" ?b]
  show ?thesis by blast
qed

text \<open>
  Claim C2, as stated, fails: a buffer of 127 bytes raises IndexError at the checksum
  byte, and a buffer of 129 bytes that ends in a lone \<open>0xC2\<close> raises UnicodeDecodeError
  in the encoding repair.
\<close>

theorem parse_edid_raises:
  "parse_edid exact_rounding example_env [] (EBytes (replicate 127 0x00)) = Inl IndexError \<and>
   parse_edid exact_rounding example_env [] (EBytes (replicate 128 0x00 @ [0xC2])) = Inl UnicodeDecodeError"
proof -
  let ?s = "replicate 127 (0x00 :: 8 word)"
  have n: "normalize_edid (EBytes ?s) = Inr ?s"
    by (rule normalize_edid_bytes) simp
  obtain h c where h: "parse_edid_header example_env [] ?s = Inr (h, c)"
    using parse_edid_header_returns [of example_env "[]" ?s] database_available_example by auto
  obtain b where b: "parse_edid_basic_display_parameters exact_rounding ?s = Inr b"
    using basic_display_parameters_returns [of exact_rounding ?s] by auto
  obtain ch where ch: "parse_edid_chromaticity_coordinates exact_rounding ?s = Inr ch"
    using chromaticity_returns [of ?s exact_rounding] by auto
  obtain d where d: "parse_edid_descriptor_blocks exact_rounding ?s = Inr d"
    using descriptor_blocks_returns [of ?s exact_rounding] by auto
  have e: "parse_edid_extension_blocks ?s = Inl IndexError"
    by (simp add: parse_edid_extension_blocks_def layout getitem_def)
  have short: "parse_edid exact_rounding example_env [] (EBytes ?s) = Inl IndexError"
    by (simp add: parse_edid_def n h b ch d e)
  have "utf8_decode (replicate 128 0x00 @ [0xC2]) = Inl UnicodeDecodeError"
    by (subst utf8_decode_ascii_append) (simp_all add: list_all_iff)
  then have "normalize_edid (EBytes (replicate 128 0x00 @ [0xC2])) = Inl UnicodeDecodeError"
    by (simp add: normalize_edid_def)
  then have "parse_edid exact_rounding example_env [] (EBytes (replicate 128 0x00 @ [0xC2]))
               = Inl UnicodeDecodeError"
    by (simp add: parse_edid_def)
  with short show ?thesis by simp
qed

section \<open>The gamma sentinel\<close>

text \<open>
  Claim C1 at the sentinel.  The gamma byte is an integer and the sentinel it is compared
  with is a byte string, so the comparison never holds: with gamma byte \<open>0xFF\<close> the
  record of \<open>parse_edid_basic_display_parameters\<close>, and the record of \<open>parse_edid\<close>,
  still hold the key \<open>gamma\<close>, with the value \<open>255/100 + 1\<close>.
\<close>

theorem gamma_sentinel_kept:
  "(\<exists>r. parse_edid_basic_display_parameters fl gamma_sentinel_edid = Inr r \<and>
         r ''gamma'' = Some (PFloat (fl (fl (255 / 100) + 1)))) \<and>
   (\<exists>r c. parse_edid fl example_env [] (EBytes gamma_sentinel_edid) = Inr (r, c) \<and>
           r ''gamma'' = Some (PFloat (fl (fl (255 / 100) + 1))))"
proof -
  have len: "25 \<le> length gamma_sentinel_edid" "128 \<le> length gamma_sentinel_edid"
    by (simp_all add: gamma_sentinel_edid_def)
  have g: "uint (gamma_sentinel_edid ! 23) = 255"
    by (simp add: gamma_sentinel_edid_def nth_append)
  from basic_display_parameters_gamma [OF len(1), of fl] obtain r
    where "parse_edid_basic_display_parameters fl gamma_sentinel_edid = Inr r"
      and "r ''gamma'' = Some (PFloat (fl (fl (of_int (uint (gamma_sentinel_edid ! 23)) / 100) + 1)))"
    by blast
  then have basic: "\<exists>r. parse_edid_basic_display_parameters fl gamma_sentinel_edid = Inr r \<and>
                        r ''gamma'' = Some (PFloat (fl (fl (255 / 100) + 1)))"
    unfolding g by auto
  have n: "normalize_edid (EBytes gamma_sentinel_edid) = Inr gamma_sentinel_edid"
    by (rule normalize_edid_bytes) (simp add: gamma_sentinel_edid_def)
  from parse_edid_Inr_I [OF n len(2) database_available_example, of fl] obtain r c
    where run: "parse_edid fl example_env [] (EBytes gamma_sentinel_edid) = Inr (r, c)"
    by blast
  from parse_edid_Inr_D [OF run] obtain buf
    where "normalize_edid (EBytes gamma_sentinel_edid) = Inr buf"
      and "r ''gamma'' = Some (PFloat (fl (fl (of_int (uint (buf ! 23)) / 100) + 1)))"
    by blast
  then have "r ''gamma'' = Some (PFloat (fl (fl (of_int (uint (gamma_sentinel_edid ! 23)) / 100) + 1)))"
    by (simp add: n)
  then have "r ''gamma'' = Some (PFloat (fl (fl (255 / 100) + 1)))"
    unfolding g by simp
  with run basic show ?thesis by blast
qed

section \<open>The colour-point descriptor\<close>

lemma color_point_block:
  "py_slice color_point_edid 54 72 =
     [0x00, 0x00, 0x00, 0xFB, 0x00, 0x02, 0x05, 0x80, 0x40, 0x14,
      0x00, 0x00, 0x00, 0x00, 0x00, 0x00, 0x00, 0x00]"
  by (simp add: color_point_edid_def py_slice_def)

lemma zero_block:
  "py_slice color_point_edid 72 90 = replicate 18 0"
  "py_slice color_point_edid 90 108 = replicate 18 0"
  "py_slice color_point_edid 108 126 = replicate 18 0"
  by (simp_all add: color_point_edid_def py_slice_def)

lemma text_types_tag:
  "text_types [0xFB] = None" "text_types [0x00] = None"
  by (simp_all add: text_types_def BLOCK_TYPE_SERIAL_ASCII_def BLOCK_TYPE_ASCII_def
      BLOCK_TYPE_MONITOR_NAME_def)

lemma color_point_slot_skipped:
  "descriptor_loop fl color_point_edid ((54, 72) # rest) result =
     descriptor_loop fl color_point_edid rest result"
  by (simp only: descriptor_loop_step color_point_block)
     (simp add: py_slice_def text_types_tag)

lemma zero_slot_skipped:
  assumes "py_slice color_point_edid start stop = replicate 18 0"
  shows "descriptor_loop fl color_point_edid ((start, stop) # rest) result =
           descriptor_loop fl color_point_edid rest result"
proof -
  have r: "replicate 18 (0 :: 8 word) =
             [0, 0, 0, 0, 0, 0, 0, 0, 0, 0, 0, 0, 0, 0, 0, 0, 0, 0]"
    by (simp add: numeral_eq_Suc)
  show ?thesis
    by (simp only: descriptor_loop_step assms r)
       (simp add: py_slice_def text_types_tag)
qed

lemma descriptors_of_color_point_edid:
  "parse_edid_descriptor_blocks fl color_point_edid = Inr Map.empty"
  unfolding parse_edid_descriptor_blocks_def BLOCKS_def
  by (simp only: color_point_slot_skipped zero_slot_skipped [OF zero_block(1)]
      zero_slot_skipped [OF zero_block(2)] zero_slot_skipped [OF zero_block(3)]
      descriptor_loop.simps(1))

lemma py_str_2: "py_str 2 = ''2''"
  by code_simp

lemma color_point_data_of_block:
  "\<exists>d. parse_color_point_data exact_rounding (py_slice color_point_edid 54 72) = Inr d \<and>
   d ''white_x_2'' = Some (PFloat (513 / 1024)) \<and> d ''white_y_2'' = Some (PFloat (257 / 1024))"
  unfolding color_point_block parse_color_point_data_def
  by (simp add: getitem_def edid_get_bits_def decode_fraction_exact [OF exact_on_grid_exact_rounding]
      py_str_2 set_default_def Let_def exact_rounding_def)

text \<open>
  Claim C4 at a colour-point slot.  The first slot of \<open>color_point_edid\<close> starts with
  three zero bytes and carries the tag \<open>0xFB\<close>; the colour-point parser, run on the slot,
  yields \<open>white_x_2\<close> and \<open>white_y_2\<close>.  But \<open>parse_edid_descriptor_blocks\<close> compares
  the integer tag with a byte string, never reaches that parser, and returns the empty
  record.
\<close>

theorem color_point_slot_not_decoded:
  "py_slice color_point_edid 54 57 = [0x00, 0x00, 0x00] \<and>
   getitem color_point_edid 57 = Inr 0xFB \<and>
   (\<exists>d. parse_color_point_data exact_rounding (py_slice color_point_edid 54 72) = Inr d \<and>
        d ''white_x_2'' = Some (PFloat (513 / 1024)) \<and>
        d ''white_y_2'' = Some (PFloat (257 / 1024))) \<and>
   parse_edid_descriptor_blocks exact_rounding color_point_edid = Inr Map.empty"
proof -
  have "py_slice color_point_edid 54 57 = [0x00, 0x00, 0x00]"
    by (simp add: color_point_edid_def py_slice_def)
  moreover have "getitem color_point_edid 57 = Inr 0xFB"
    by (simp add: color_point_edid_def getitem_def nth_append)
  ultimately show ?thesis
    using color_point_data_of_block descriptors_of_color_point_edid [of exact_rounding]
    by blast
qed

section \<open>Manufacturer database: insertion\<close>

lemma first_wins_skip:
  "map_of cache i \<noteq> None \<Longrightarrow> first_wins cache ((i, n) # entries) code = first_wins cache entries code"
  by (auto simp: first_wins_def split: option.splits)

lemma first_wins_insert:
  "map_of cache i = None \<Longrightarrow>
   first_wins (cache @ [(i, n)]) entries code = first_wins cache ((i, n) # entries) code"
  by (auto simp: first_wins_def map_add_def split: option.splits)

lemma first_wins_Nil: "first_wins cache [] code = map_of cache code"
  by (simp add: first_wins_def split: option.splits)

text \<open>For a file of the id-list format the loop of \<open>parse_pnpid_file\<close> always
  returns and is first-wins: a code present before keeps its name, any other code gets the
  name of the first line that has it.\<close>

lemma pnpid_file_step:
  assumes "\<not> endswith path ''hwdb''"
  shows "\<exists>cache1. parse_pnpid_file (line # pnp_ids) path cache = parse_pnpid_file pnp_ids path cache1 \<and>
           (\<forall>code. first_wins cache1 (List.map_filter pnpid_entry pnp_ids) code
                    = first_wins cache (List.map_filter pnpid_entry (line # pnp_ids)) code)"
proof -
  obtain ident name where r: "parse_pnpid_line line = (ident, name)"
    by (cases "parse_pnpid_line line")
  have pl: "parse_line path line = Inr (ident, name)"
    using assms r by (simp add: parse_line_def)
  show ?thesis
  proof (cases "pnpid_entry line")
    case None
    then have "parse_pnpid_file (line # pnp_ids) path cache = parse_pnpid_file pnp_ids path cache"
      using r by (auto simp: pl pnpid_entry_def py_truthy_def split: option.splits if_splits)
    with None show ?thesis by auto
  next
    case (Some e)
    obtain i n where e: "e = (i, n)" by (cases e)
    from Some e have v: "ident = Some i" "name = Some n" "i \<noteq> []" "n \<noteq> []"
      using r by (auto simp: pnpid_entry_def split: option.splits if_splits)
    show ?thesis
    proof (cases "map_of cache i")
      case None
      then have "parse_pnpid_file (line # pnp_ids) path cache
                   = parse_pnpid_file pnp_ids path (cache @ [(i, n)])"
        using v by (simp add: pl py_truthy_def)
      with None Some e show ?thesis
        by (auto simp: first_wins_insert)
    next
      case (Some m)
      then have "parse_pnpid_file (line # pnp_ids) path cache = parse_pnpid_file pnp_ids path cache"
        using v by (simp add: pl py_truthy_def)
      with Some \<open>pnpid_entry line = Some e\<close> e show ?thesis
        by (auto simp: first_wins_skip)
    qed
  qed
qed

lemma pnpid_format_first_wins:
  assumes "\<not> endswith path ''hwdb''"
  shows "\<exists>cache'. parse_pnpid_file pnp_ids path cache = Inr cache' \<and>
           map_of cache' = first_wins cache (List.map_filter pnpid_entry pnp_ids)"
proof (induction pnp_ids arbitrary: cache)
  case Nil
  show ?case by (simp add: first_wins_Nil fun_eq_iff)
next
  case (Cons line pnp_ids)
  from pnpid_file_step [OF assms, of line pnp_ids cache] obtain cache1
    where step: "parse_pnpid_file (line # pnp_ids) path cache = parse_pnpid_file pnp_ids path cache1"
      and fw: "\<And>code. first_wins cache1 (List.map_filter pnpid_entry pnp_ids) code
                    = first_wins cache (List.map_filter pnpid_entry (line # pnp_ids)) code"
    by blast
  from Cons.IH [of cache1] obtain cache'
    where "parse_pnpid_file pnp_ids path cache1 = Inr cache'"
      and "map_of cache' = first_wins cache1 (List.map_filter pnpid_entry pnp_ids)"
    by blast
  with step fw show ?case by (auto simp: fun_eq_iff)
qed

lemma hwdb_line_never_both:
  "parse_hwdb_line line = Inr (ident, name) \<Longrightarrow> ident = None \<or> name = None"
  by (auto simp: parse_hwdb_line_def ebind_eq_Inr split: if_splits)

lemma hwdb_never_inserts:
  assumes "endswith path ''hwdb''"
  shows "parse_pnpid_file pnp_ids path cache = Inr cache' \<Longrightarrow> cache' = cache"
proof (induction pnp_ids arbitrary: cache)
  case Nil
  then show ?case by simp
next
  case (Cons line pnp_ids)
  from Cons.prems obtain ident name
    where r: "parse_hwdb_line line = Inr (ident, name)"
    using assms by (auto simp: parse_line_def ebind_eq_Inr)
  from hwdb_line_never_both [OF r] have "ident = None \<or> name = None" .
  then have "parse_pnpid_file (line # pnp_ids) path cache = parse_pnpid_file pnp_ids path cache"
    using assms r by (auto simp: parse_line_def split: option.splits)
  with Cons show ?case by simp
qed

text \<open>For a file of the database-dump format (a path ending in \<open>hwdb\<close>) no line
  yields both a code and a name, and the loop overwrites both on every line: nothing is
  ever inserted.\<close>

lemmas hwdb_line_eval = parse_line_def endswith_def parse_hwdb_line_def parse_pnpid_line_def
  py_split_ws1_def py_split1_def py_strip_def strip_chars_def pnpid_strip_chars_def py_isspace_def
  startswith_def list_item_def py_truthy_def ustr_def Let_def

text \<open>
  Claim C9 at a database-dump file.  The file holds the code line \<open>acpi:DEL*:\<close> and the
  name line \<open>ID_VENDOR_FROM_DATABASE=Dell Inc.\<close> after it.  \<open>parse_pnpid_file\<close> leaves
  the cache empty, so when an id-list file with the line \<open>DEL Other\<close> is parsed next, the
  code \<open>DEL\<close> ends up with the name \<open>Other\<close> of the later source.
\<close>

theorem hwdb_entries_never_inserted:
  "parse_pnpid_file
     [ustr ''acpi:DEL*:'' @ [10], ustr '' ID_VENDOR_FROM_DATABASE=Dell Inc.'' @ [10]]
     ''/usr/lib/udev/hwdb.d/20-acpi-vendor.hwdb'' [] = Inr [] \<and>
   ebind (parse_pnpid_file
            [ustr ''acpi:DEL*:'' @ [10], ustr '' ID_VENDOR_FROM_DATABASE=Dell Inc.'' @ [10]]
            ''/usr/lib/udev/hwdb.d/20-acpi-vendor.hwdb'' [])
         (parse_pnpid_file [ustr ''DEL Other'' @ [10]] ''/usr/share/hwdata/pnp.ids'')
     = Inr [(ustr ''DEL'', ustr ''Other'')]"
proof -
  have first: "parse_pnpid_file
     [ustr ''acpi:DEL*:'' @ [10], ustr '' ID_VENDOR_FROM_DATABASE=Dell Inc.'' @ [10]]
     ''/usr/lib/udev/hwdb.d/20-acpi-vendor.hwdb'' [] = Inr []"
    by (simp add: hwdb_line_eval)
  have second: "parse_pnpid_file [ustr ''DEL Other'' @ [10]] ''/usr/share/hwdata/pnp.ids'' []
                  = Inr [(ustr ''DEL'', ustr ''Other'')]"
    by (simp add: hwdb_line_eval)
  show ?thesis by (simp only: first second ebind_Inr simp_thms)
qed

end
